theory Spec2Isabelle
  imports Complex_Main "HOL-Library.Sublist"
begin

section \<open>The graph utilities of the causal discovery notebook\<close>

text \<open>
  The notebook defines two functions, \<open>make_graph\<close> and \<open>str_to_dot\<close>.
  \<^verbatim>\<open>
  def make_graph(adjacency_matrix, labels=None):
      idx = np.abs(adjacency_matrix) > 0.01
      dirs = np.where(idx)
      d = graphviz.Digraph(engine='dot')
      names = labels if labels else [f'x{i}' for i in range(len(adjacency_matrix))]
      for name in names:
          d.node(name)
      for to, from_, coef in zip(dirs[0], dirs[1], adjacency_matrix[idx]):
          d.edge(names[from_], names[to], label=str(coef))
      return d

  def str_to_dot(string):
      graph = string.strip().replace('\n', ';').replace('\t','')
      graph = graph[:9] + graph[10:-2] + graph[-1]
      return graph
  \<close>
\<close>

subsection \<open>Values\<close>

text \<open>
  Neither function raises an exception of its own. On the arguments the notebook passes
  (a two-dimensional float array, a list of strings or \<open>None\<close>, a string) the only
  exception is the \<open>IndexError\<close> of an out-of-range subscript (\<open>names[from_]\<close>,
  \<open>names[to]\<close>, \<open>graph[-1]\<close>). \<open>TypeError\<close> is what an argument of another type
  ends in; only the model with an object store can express such a call.
\<close>

datatype error = IndexError | TypeError

text \<open>
  A two-dimensional array is the list of its rows. An \<open>ndarray\<close> is rectangular (every
  row has the length \<open>shape[1]\<close>); the statements below are about such arrays. A float
  is modelled by the real number its literal denotes, so \<open>0.01\<close> is one hundredth;
  rounding, infinities and NaN are outside the model.
\<close>

type_synonym ndarray = "real list list"

definition square :: "ndarray \<Rightarrow> bool" where
  "square M = (\<forall>row \<in> set M. length row = length M)"

text \<open>
  What a \<open>graphviz.Digraph\<close> holds: the layout engine it was created with and its body,
  the statements in the order the calls \<open>d.node\<close> and \<open>d.edge\<close> added them.
\<close>

datatype stmt = Node string | Edge string string string

record digraph =
  engine :: string
  body :: "stmt list"

definition Digraph :: "string \<Rightarrow> digraph" where
  "Digraph e = \<lparr>engine = e, body = []\<rparr>"

definition node :: "digraph \<Rightarrow> string \<Rightarrow> digraph" where
  "node d name = d\<lparr>body := body d @ [Node name]\<rparr>"

definition edge :: "digraph \<Rightarrow> string \<Rightarrow> string \<Rightarrow> string \<Rightarrow> digraph" where
  "edge d tail_name head_name label = d\<lparr>body := body d @ [Edge tail_name head_name label]\<rparr>"

text \<open>The declared nodes and the declared edges (tail, head, label), in declaration order.\<close>

fun nodes_of :: "stmt list \<Rightarrow> string list" where
  "nodes_of [] = []"
| "nodes_of (Node n # ss) = n # nodes_of ss"
| "nodes_of (Edge t h l # ss) = nodes_of ss"

fun edges_of :: "stmt list \<Rightarrow> (string \<times> string \<times> string) list" where
  "edges_of [] = []"
| "edges_of (Node n # ss) = edges_of ss"
| "edges_of (Edge t h l # ss) = (t, h, l) # edges_of ss"

definition nodes :: "digraph \<Rightarrow> string list" where
  "nodes d = nodes_of (body d)"

definition edges :: "digraph \<Rightarrow> (string \<times> string \<times> string) list" where
  "edges d = edges_of (body d)"

subsection \<open>The numpy operations\<close>

text \<open>\<open>np.abs(a)\<close> and \<open>a > 0.01\<close> work cell by cell and return a new array.\<close>

definition np_abs :: "ndarray \<Rightarrow> ndarray" where
  "np_abs M = map (map abs) M"

definition gt :: "ndarray \<Rightarrow> real \<Rightarrow> bool list list" where
  "gt M c = map (map (\<lambda>x. c < x)) M"

text \<open>
  The positions of the true cells of a mask, rows first and columns within a row
  (C order). \<open>np.where(idx)\<close> returns their row indices and their column indices as two
  arrays; \<open>a[idx]\<close> returns the cells of \<open>a\<close> at these positions, in the same order.
\<close>

definition true_cells :: "bool list list \<Rightarrow> (nat \<times> nat) list" where
  "true_cells B =
     concat (map (\<lambda>i. map (Pair i) (filter (\<lambda>j. B ! i ! j) [0..<length (B ! i)]))
                 [0..<length B])"

definition np_where :: "bool list list \<Rightarrow> nat list \<times> nat list" where
  "np_where B = (map fst (true_cells B), map snd (true_cells B))"

definition mask_index :: "ndarray \<Rightarrow> bool list list \<Rightarrow> real list" where
  "mask_index M B = map (\<lambda>(i, j). M ! i ! j) (true_cells B)"

subsection \<open>Formatting\<close>

text \<open>The decimal digits of a natural number, as \<open>f'{i}'\<close> writes the loop index.\<close>

definition digit :: "nat \<Rightarrow> char" where
  "digit n = ''0123456789'' ! n"

function str_nat :: "nat \<Rightarrow> string" where
  "str_nat n = (if n < 10 then [digit n] else str_nat (n div 10) @ [digit (n mod 10)])"
  by pat_completeness auto
termination
  by (relation "measure id") auto

declare str_nat.simps [simp del]

subsection \<open>\<open>make_graph\<close>\<close>

text \<open>
  \<open>labels if labels else [f'x{i}' for i in range(len(adjacency_matrix))]\<close>: the labels
  are used when they are truthy, that is, given and not the empty list.
\<close>

definition names_of :: "ndarray \<Rightarrow> string list option \<Rightarrow> string list" where
  "names_of adjacency_matrix labels =
     (case labels of
        None \<Rightarrow> map (\<lambda>i. ''x'' @ str_nat i) [0..<length adjacency_matrix]
      | Some [] \<Rightarrow> map (\<lambda>i. ''x'' @ str_nat i) [0..<length adjacency_matrix]
      | Some (l # ls) \<Rightarrow> l # ls)"

text \<open>
  The second loop. \<open>names[from_]\<close> and \<open>names[to]\<close> raise \<open>IndexError\<close> when the index
  is not below \<open>len(names)\<close> (the indices come from \<open>np.where\<close> and are not negative).
  \<open>str_f\<close> is Python's \<open>str\<close> on a float.
\<close>

fun add_edges ::
  "(real \<Rightarrow> string) \<Rightarrow> string list \<Rightarrow> (nat \<times> nat \<times> real) list \<Rightarrow> digraph \<Rightarrow> error + digraph"
where
  "add_edges str_f names [] d = Inr d"
| "add_edges str_f names ((to, from, coef) # rest) d =
     (if from < length names \<and> to < length names
      then add_edges str_f names rest (edge d (names ! from) (names ! to) (str_f coef))
      else Inl IndexError)"

definition make_graph ::
  "(real \<Rightarrow> string) \<Rightarrow> ndarray \<Rightarrow> string list option \<Rightarrow> error + digraph"
where
  "make_graph str_f adjacency_matrix labels =
     (let idx = gt (np_abs adjacency_matrix) 0.01;
          dirs = np_where idx;
          d = Digraph ''dot'';
          names = names_of adjacency_matrix labels;
          d = foldl node d names
      in add_edges str_f names
           (zip (fst dirs) (zip (snd dirs) (mask_index adjacency_matrix idx))) d)"

text \<open>
  The true cells of the mask \<open>idx\<close> of a matrix: the pairs (row, column) the second
  loop of \<open>make_graph\<close> runs over.
\<close>

definition cells :: "ndarray \<Rightarrow> (nat \<times> nat) list" where
  "cells M = true_cells (gt (np_abs M) 0.01)"

text \<open>
  Python's \<open>str\<close> on the floats \<open>0.0\<close>, \<open>0.1\<close>, ..., \<open>0.9\<close>: a zero, the point and
  one digit. It stands for \<open>str\<close> in the concrete runs below, whose cells are among
  these floats.
\<close>

definition str_tenths :: "real \<Rightarrow> string" where
  "str_tenths x = ''0.'' @ str_nat (nat \<lfloor>x * 10\<rfloor>)"

subsection \<open>\<open>make_graph\<close> on an object store\<close>

text \<open>
  Arrays, lists and \<open>Digraph\<close>s are mutable objects, and \<open>make_graph\<close> receives
  references to them. The store is the list of all objects; a reference is an index into
  it. \<open>np.abs\<close>, the comparison, \<open>np.where\<close> and the mask subscript build new arrays
  from the cells they read, and the comprehension builds a new list; the only object
  the function writes to after creating it is the \<open>Digraph\<close>, through \<open>d.node\<close> and
  \<open>d.edge\<close>.
\<close>

datatype obj = Ndarray ndarray | PyList "string list" | DigraphObj digraph

type_synonym ref = nat

type_synonym store = "obj list"

definition lookup :: "store \<Rightarrow> ref \<Rightarrow> obj option" where
  "lookup h r = (if r < length h then Some (h ! r) else None)"

definition alloc :: "store \<Rightarrow> obj \<Rightarrow> ref \<times> store" where
  "alloc h v = (length h, h @ [v])"

definition node_st :: "ref \<Rightarrow> string \<Rightarrow> store \<Rightarrow> store" where
  "node_st d name h =
     (case lookup h d of
        Some (DigraphObj g) \<Rightarrow> h[d := DigraphObj (node g name)]
      | _ \<Rightarrow> h)"

definition edge_st :: "ref \<Rightarrow> string \<Rightarrow> string \<Rightarrow> string \<Rightarrow> store \<Rightarrow> store" where
  "edge_st d tail_name head_name label h =
     (case lookup h d of
        Some (DigraphObj g) \<Rightarrow> h[d := DigraphObj (edge g tail_name head_name label)]
      | _ \<Rightarrow> h)"

fun add_edges_st ::
  "(real \<Rightarrow> string) \<Rightarrow> string list \<Rightarrow> (nat \<times> nat \<times> real) list \<Rightarrow> ref \<Rightarrow> store \<Rightarrow>
   (error + ref) \<times> store"
where
  "add_edges_st str_f names [] d h = (Inr d, h)"
| "add_edges_st str_f names ((to, from, coef) # rest) d h =
     (if from < length names \<and> to < length names
      then add_edges_st str_f names rest d
             (edge_st d (names ! from) (names ! to) (str_f coef) h)
      else (Inl IndexError, h))"

text \<open>
  The value of the \<open>labels\<close> argument: \<open>None\<close>, or the list a reference points to.
\<close>

definition labels_value :: "store \<Rightarrow> ref option \<Rightarrow> error + string list option" where
  "labels_value h labels =
     (case labels of
        None \<Rightarrow> Inr None
      | Some r \<Rightarrow> (case lookup h r of Some (PyList L) \<Rightarrow> Inr (Some L) | _ \<Rightarrow> Inl TypeError))"

definition make_graph_st ::
  "(real \<Rightarrow> string) \<Rightarrow> ref \<Rightarrow> ref option \<Rightarrow> store \<Rightarrow> (error + ref) \<times> store"
where
  "make_graph_st str_f adjacency_matrix labels h =
     (case (lookup h adjacency_matrix, labels_value h labels) of
        (Some (Ndarray M), Inr L) \<Rightarrow>
          (let idx = gt (np_abs M) 0.01;
               dirs = np_where idx;
               (d, h) = alloc h (DigraphObj (Digraph ''dot''));
               names = names_of M L;
               h = foldl (\<lambda>h name. node_st d name h) h names
           in add_edges_st str_f names (zip (fst dirs) (zip (snd dirs) (mask_index M idx))) d h)
      | _ \<Rightarrow> (Inl TypeError, h))"

subsection \<open>\<open>str_to_dot\<close>\<close>

text \<open>
  A Python string is a sequence of code points; the model has the code points below 256,
  one \<open>char\<close> each, which covers the ASCII text the \<open>graphviz\<close> package writes.
  \<open>isspace\<close> lists the code points below 256 that \<open>str.isspace\<close> accepts: these are
  what \<open>strip()\<close> removes from both ends.
\<close>

definition isspace :: "char \<Rightarrow> bool" where
  "isspace c = (c \<in> {CHR 0x09, CHR 0x0A, CHR 0x0B, CHR 0x0C, CHR 0x0D, CHR 0x1C, CHR 0x1D,
                      CHR 0x1E, CHR 0x1F, CHR 0x20, CHR 0x85, CHR 0xA0})"

definition strip :: "string \<Rightarrow> string" where
  "strip s = rev (dropWhile isspace (rev (dropWhile isspace s)))"

text \<open>\<open>s.replace(old, new)\<close> for an \<open>old\<close> of one character.\<close>

definition replace :: "char \<Rightarrow> string \<Rightarrow> string \<Rightarrow> string" where
  "replace old new s = concat (map (\<lambda>c. if c = old then new else [c]) s)"

text \<open>
  Subscripts. In a slice a negative bound counts from the end, a missing bound is the
  start or the end, and a bound outside the string is clipped; an index outside the
  string raises.
\<close>

definition clip :: "nat \<Rightarrow> int \<Rightarrow> nat" where
  "clip n k = (if k < 0 then nat (int n + k) else min (nat k) n)"

definition slice :: "'a list \<Rightarrow> int option \<Rightarrow> int option \<Rightarrow> 'a list" where
  "slice s start stop =
     (let a = (case start of None \<Rightarrow> 0 | Some k \<Rightarrow> clip (length s) k);
          b = (case stop of None \<Rightarrow> length s | Some k \<Rightarrow> clip (length s) k)
      in drop a (take b s))"

definition index :: "'a list \<Rightarrow> int \<Rightarrow> error + 'a" where
  "index s k =
     (let j = (if k < 0 then int (length s) + k else k)
      in if 0 \<le> j \<and> j < int (length s) then Inr (s ! nat j) else Inl IndexError)"

text \<open>The first line of \<open>str_to_dot\<close>.\<close>

definition normalise :: "string \<Rightarrow> string" where
  "normalise string = replace (CHR 0x09) [] (replace (CHR 0x0A) '';'' (strip string))"

definition str_to_dot :: "string \<Rightarrow> error + string" where
  "str_to_dot string =
     (let graph = normalise string
      in case index graph (- 1) of
           Inl e \<Rightarrow> Inl e
         | Inr c \<Rightarrow> Inr (slice graph None (Some 9) @ slice graph (Some 10) (Some (- 2)) @ [c]))"

section \<open>Properties of \<open>make_graph\<close>\<close>

subsection \<open>The two loops\<close>

lemma body_foldl_node: "foldl node d ns = d\<lparr>body := body d @ map Node ns\<rparr>"
  by (induction ns arbitrary: d) (simp_all add: node_def)

lemma add_edges_ok:
  "\<forall>e \<in> set es. fst (snd e) < length names \<and> fst e < length names \<Longrightarrow>
   add_edges str_f names es d =
     Inr (d\<lparr>body := body d @
                 map (\<lambda>(to, from, coef). Edge (names ! from) (names ! to) (str_f coef)) es\<rparr>)"
  by (induction str_f names es d rule: add_edges.induct) (simp_all add: edge_def)

lemma add_edges_fail:
  "\<exists>e \<in> set es. \<not> (fst (snd e) < length names \<and> fst e < length names) \<Longrightarrow>
   add_edges str_f names es d = Inl IndexError"
  by (induction str_f names es d rule: add_edges.induct) auto

subsection \<open>The mask and its true cells\<close>

lemma zip_dirs:
  "zip (fst (np_where B)) (zip (snd (np_where B)) (mask_index M B)) =
   map (\<lambda>(i, j). (i, j, M ! i ! j)) (true_cells B)"
  unfolding np_where_def mask_index_def
  by (induction "true_cells B") (auto simp: zip_map_map zip_same_conv_map split: prod.splits)

lemma true_cells_idx:
  "true_cells (gt (np_abs M) c) =
   filter (\<lambda>(i, j). c < \<bar>M ! i ! j\<bar>)
     (concat (map (\<lambda>i. map (Pair i) [0..<length (M ! i)]) [0..<length M]))"
  unfolding true_cells_def gt_def np_abs_def
  by (auto simp: filter_concat filter_map comp_def
      intro!: arg_cong [where f = concat] map_cong filter_cong)

lemma square_product:
  "square M \<Longrightarrow>
   concat (map (\<lambda>i. map (Pair i) [0..<length (M ! i)]) [0..<length M]) =
   List.product [0..<length M] [0..<length M]"
  unfolding square_def List.product_concat_map
  by (auto intro!: arg_cong [where f = concat] map_cong)

lemma set_cells:
  "set (cells M) = {(i, j). i < length M \<and> j < length (M ! i) \<and> 0.01 < \<bar>M ! i ! j\<bar>}"
  unfolding cells_def true_cells_idx by force

lemma distinct_concat_Pair:
  "distinct xs \<Longrightarrow> (\<forall>i \<in> set xs. distinct (f i)) \<Longrightarrow>
   distinct (concat (map (\<lambda>i. map (Pair i) (f i)) xs))"
  by (induction xs) (auto simp: distinct_map inj_on_def)

lemma distinct_cells: "distinct (cells M)"
  unfolding cells_def true_cells_idx
  by (intro distinct_filter distinct_concat_Pair) simp_all

lemma cells_square:
  "square M \<Longrightarrow>
   cells M = filter (\<lambda>(i, j). 0.01 < \<bar>M ! i ! j\<bar>) (List.product [0..<length M] [0..<length M])"
  by (simp add: cells_def true_cells_idx square_product)

lemma cells_in_range:
  "square M \<Longrightarrow> (i, j) \<in> set (cells M) \<Longrightarrow> i < length M \<and> j < length M"
  by (auto simp: cells_square)

subsection \<open>What \<open>make_graph\<close> returns\<close>

lemma make_graph_cases:
  "make_graph str_f M labels =
     (if \<forall>c \<in> set (cells M).
           snd c < length (names_of M labels) \<and> fst c < length (names_of M labels)
      then Inr \<lparr>engine = ''dot'',
                body = map Node (names_of M labels) @
                       map (\<lambda>(to, from). Edge (names_of M labels ! from) (names_of M labels ! to)
                                            (str_f (M ! to ! from))) (cells M)\<rparr>
      else Inl IndexError)"
proof (cases "\<forall>c \<in> set (cells M).
           snd c < length (names_of M labels) \<and> fst c < length (names_of M labels)")
  case True
  then have "\<forall>e \<in> set (map (\<lambda>(i, j). (i, j, M ! i ! j)) (cells M)).
               fst (snd e) < length (names_of M labels) \<and> fst e < length (names_of M labels)"
    by (simp add: case_prod_unfold)
  from add_edges_ok [OF this] True show ?thesis
    unfolding make_graph_def Let_def zip_dirs cells_def [symmetric]
    by (simp add: body_foldl_node Digraph_def comp_def case_prod_unfold)
next
  case False
  then have "\<exists>e \<in> set (map (\<lambda>(i, j). (i, j, M ! i ! j)) (cells M)).
               \<not> (fst (snd e) < length (names_of M labels) \<and> fst e < length (names_of M labels))"
    by (simp add: case_prod_unfold)
  from add_edges_fail [OF this] False show ?thesis
    unfolding make_graph_def Let_def zip_dirs cells_def [symmetric] by simp
qed

lemma make_graph_square:
  assumes "square M" and "length (names_of M labels) = length M"
  shows "make_graph str_f M labels =
     Inr \<lparr>engine = ''dot'',
          body = map Node (names_of M labels) @
                 map (\<lambda>(to, from). Edge (names_of M labels ! from) (names_of M labels ! to)
                                      (str_f (M ! to ! from))) (cells M)\<rparr>"
  using assms cells_in_range [OF assms(1)] by (auto simp: make_graph_cases)

lemma names_of_Some: "length L = length M \<Longrightarrow> names_of M (Some L) = L"
  by (cases L) (simp_all add: names_of_def)

lemma length_names_of_None: "length (names_of M None) = length M"
  by (simp add: names_of_def)

lemma nodes_of_append: "nodes_of (xs @ ys) = nodes_of xs @ nodes_of ys"
  by (induction xs rule: nodes_of.induct) simp_all

lemma edges_of_append: "edges_of (xs @ ys) = edges_of xs @ edges_of ys"
  by (induction xs rule: edges_of.induct) simp_all

lemma nodes_of_Nodes: "nodes_of (map Node ns) = ns"
  by (induction ns) simp_all

lemma edges_of_Nodes: "edges_of (map Node ns) = []"
  by (induction ns) simp_all

lemma nodes_of_Edges: "nodes_of (map (\<lambda>(a, b). Edge (f a b) (g a b) (h a b)) cs) = []"
  by (induction cs) auto

lemma edges_of_Edges:
  "edges_of (map (\<lambda>(a, b). Edge (f a b) (g a b) (h a b)) cs) =
   map (\<lambda>(a, b). (f a b, g a b, h a b)) cs"
  by (induction cs) auto

lemma square_example: "square [[0, 0.5], [0.6, 0]]"
  by (simp add: square_def)

lemma cells_example: "cells [[0, 0.5], [0.6, 0]] = [(0, 1), (1, 0)]"
  by (simp add: cells_def true_cells_def gt_def np_abs_def)

subsection \<open>The edges\<close>

text \<open>
  Claim C1. For a square matrix \<open>M\<close> and a list \<open>L\<close> of as many labels as \<open>M\<close> has
  rows, \<open>make_graph\<close> returns a graph whose edges are, in this order, one edge for each
  cell \<open>(to, from)\<close> with \<open>|M[to][from]| > 0.01\<close>, the cells taken row by row and from
  left to right within a row; the edge of a cell runs from \<open>L[from]\<close> to \<open>L[to]\<close> and is
  labelled with \<open>str\<close> of the cell. For \<open>[[0, 0.5], [0.6, 0]]\<close> and \<open>["A", "B"]\<close> the
  graph has the nodes \<open>A\<close> and \<open>B\<close>, an edge from \<open>B\<close> to \<open>A\<close> labelled \<open>str(0.5)\<close>
  and an edge from \<open>A\<close> to \<open>B\<close> labelled \<open>str(0.6)\<close>.
\<close>

theorem make_graph_edges:
  assumes "square M" and "length L = length M"
  shows "(\<exists>d. make_graph str_f M (Some L) = Inr d \<and>
     edges d = map (\<lambda>(to, from). (L ! from, L ! to, str_f (M ! to ! from)))
                 (filter (\<lambda>(to, from). 0.01 < \<bar>M ! to ! from\<bar>)
                    (List.product [0..<length M] [0..<length M]))) \<and>
     make_graph str_f [[0, 0.5], [0.6, 0]] (Some [''A'', ''B'']) =
       Inr \<lparr>engine = ''dot'',
            body = [Node ''A'', Node ''B'',
                    Edge ''B'' ''A'' (str_f 0.5), Edge ''A'' ''B'' (str_f 0.6)]\<rparr>"
proof
  show "\<exists>d. make_graph str_f M (Some L) = Inr d \<and>
     edges d = map (\<lambda>(to, from). (L ! from, L ! to, str_f (M ! to ! from)))
                 (filter (\<lambda>(to, from). 0.01 < \<bar>M ! to ! from\<bar>)
                    (List.product [0..<length M] [0..<length M]))"
    using assms
    by (simp add: make_graph_square names_of_Some edges_def edges_of_append edges_of_Nodes
        edges_of_Edges cells_square)
  have len: "length (names_of [[0, 0.5], [0.6, 0]] (Some [''A'', ''B''])) =
             length [[0, 0.5], [0.6, 0::real]]"
    by (simp add: names_of_def)
  show "make_graph str_f [[0, 0.5], [0.6, 0]] (Some [''A'', ''B'']) =
       Inr \<lparr>engine = ''dot'',
            body = [Node ''A'', Node ''B'',
                    Edge ''B'' ''A'' (str_f 0.5), Edge ''A'' ''B'' (str_f 0.6)]\<rparr>"
    unfolding make_graph_square [OF square_example len] cells_example
    by (simp add: names_of_def)
qed

theorem make_graph_edges_witness:
  "square [[0, 0.5], [0.6, 0]] \<and> length [''A'', ''B''] = length [[0, 0.5], [0.6, 0::real]] \<and>
   (\<exists>d. make_graph str_tenths [[0, 0.5], [0.6, 0]] (Some [''A'', ''B'']) = Inr d \<and>
        nodes d = [''A'', ''B''] \<and>
        edges d = [(''B'', ''A'', ''0.5''), (''A'', ''B'', ''0.6'')])"
proof -
  have len: "length [''A'', ''B''] = length [[0, 0.5], [0.6, 0::real]]"
    by simp
  from make_graph_edges [OF square_example len, of str_tenths] square_example show ?thesis
    by (auto simp: nodes_def edges_def str_tenths_def str_nat.simps digit_def)
qed

subsection \<open>The number of edges\<close>

text \<open>
  Claim C4. For a square matrix \<open>M\<close> of dimension \<open>N\<close>, \<open>make_graph\<close> returns a graph
  when no labels are given, and whatever the labels are, a graph it returns has one edge
  for each true cell of the mask, so as many edges as there are cells \<open>(i, j)\<close> with
  \<open>|M[i][j]| > 0.01\<close>. The comparison is strict: a cell whose absolute value is exactly
  \<open>0.01\<close> is not a true cell of the mask.
\<close>

theorem make_graph_edge_count:
  assumes "square M"
  shows "(\<exists>d. make_graph str_f M None = Inr d) \<and>
         (\<forall>labels d. make_graph str_f M labels = Inr d \<longrightarrow>
            edges d = map (\<lambda>(to, from). (names_of M labels ! from, names_of M labels ! to,
                                          str_f (M ! to ! from))) (cells M) \<and>
            length (edges d) =
              card {(i, j). i < length M \<and> j < length M \<and> 0.01 < \<bar>M ! i ! j\<bar>}) \<and>
         (\<forall>i j. \<bar>M ! i ! j\<bar> = 0.01 \<longrightarrow> (i, j) \<notin> set (cells M))"
proof (intro conjI allI impI)
  show "\<exists>d. make_graph str_f M None = Inr d"
    using assms by (simp add: make_graph_square length_names_of_None)
next
  fix labels d
  assume d: "make_graph str_f M labels = Inr d"
  then show e: "edges d = map (\<lambda>(to, from). (names_of M labels ! from, names_of M labels ! to,
                                          str_f (M ! to ! from))) (cells M)"
    by (auto simp: make_graph_cases edges_def edges_of_append edges_of_Nodes edges_of_Edges
        split: if_splits)
  have "set (cells M) = {(i, j). i < length M \<and> j < length M \<and> 0.01 < \<bar>M ! i ! j\<bar>}"
    using assms unfolding set_cells square_def by auto
  then have "card {(i, j). i < length M \<and> j < length M \<and> 0.01 < \<bar>M ! i ! j\<bar>} =
             length (cells M)"
    using distinct_card [OF distinct_cells [of M]] by simp
  with e show "length (edges d) =
      card {(i, j). i < length M \<and> j < length M \<and> 0.01 < \<bar>M ! i ! j\<bar>}"
    by simp
next
  fix i j
  assume "\<bar>M ! i ! j\<bar> = 0.01"
  then show "(i, j) \<notin> set (cells M)"
    unfolding set_cells by simp
qed

theorem make_graph_edge_count_witness:
  "square [[0, 0.5], [0.01, 0.6]] \<and>
   (\<exists>d. make_graph str_tenths [[0, 0.5], [0.01, 0.6]] None = Inr d \<and>
        edges d = [(''x1'', ''x0'', ''0.5''), (''x1'', ''x1'', ''0.6'')]) \<and>
   card {(i, j). i < length [[0, 0.5], [0.01, 0.6::real]] \<and>
                 j < length [[0, 0.5], [0.01, 0.6::real]] \<and>
                 0.01 < \<bar>[[0, 0.5], [0.01, 0.6::real]] ! i ! j\<bar>} = 2 \<and>
   (1, 0) \<notin> set (cells [[0, 0.5], [0.01, 0.6]])"
proof -
  let ?M = "[[0, 0.5], [0.01, 0.6::real]]"
  have sq: "square ?M"
    by (simp add: square_def)
  have c: "cells ?M = [(0, 1), (1, 1)]"
    by (simp add: cells_def true_cells_def gt_def np_abs_def)
  have g: "make_graph str_tenths ?M None =
      Inr \<lparr>engine = ''dot'',
           body = [Node ''x0'', Node ''x1'',
                   Edge ''x1'' ''x0'' ''0.5'', Edge ''x1'' ''x1'' ''0.6'']\<rparr>"
    unfolding make_graph_cases c
    by (simp add: names_of_def str_tenths_def str_nat.simps digit_def)
  note make_graph_edge_count [OF sq, of str_tenths, THEN conjunct2, THEN conjunct1,
      rule_format, OF g, THEN conjunct2]
  then have "card {(i, j). i < length ?M \<and> j < length ?M \<and> 0.01 < \<bar>?M ! i ! j\<bar>} = 2"
    by (simp add: edges_def)
  moreover have "\<exists>d. make_graph str_tenths ?M None = Inr d \<and>
        edges d = [(''x1'', ''x0'', ''0.5''), (''x1'', ''x1'', ''0.6'')]"
    unfolding g by (simp add: edges_def)
  moreover have "(1, 0) \<notin> set (cells ?M)"
    unfolding c by simp
  ultimately show ?thesis
    using sq by (intro conjI)
qed

subsection \<open>The nodes\<close>

lemma digit_inj: "a < 10 \<Longrightarrow> b < 10 \<Longrightarrow> digit a = digit b \<Longrightarrow> a = b"
proof -
  have d: "distinct ''0123456789''"
    by simp
  assume "a < 10" "b < 10" "digit a = digit b"
  then show ?thesis
    using nth_eq_iff_index_eq [OF d, of a b] by (simp add: digit_def)
qed

lemma str_nat_not_Nil: "str_nat n \<noteq> []" "[] \<noteq> str_nat n"
  by (subst str_nat.simps, simp)+

lemma str_nat_inj: "str_nat m = str_nat n \<Longrightarrow> m = n"
proof (induction m arbitrary: n rule: str_nat.induct)
  case (1 m)
  show ?case
  proof (cases "m < 10")
    case True
    note m = this
    show ?thesis
    proof (cases "n < 10")
      case True
      with m "1.prems" show ?thesis
        by (simp add: str_nat.simps [of m] str_nat.simps [of n] digit_inj)
    next
      case False
      with m "1.prems" show ?thesis
        by (simp add: str_nat.simps [of m] str_nat.simps [of n] str_nat_not_Nil)
    qed
  next
    case False
    note m = this
    show ?thesis
    proof (cases "n < 10")
      case True
      with m "1.prems" show ?thesis
        by (simp add: str_nat.simps [of m] str_nat.simps [of n] str_nat_not_Nil)
    next
      case False
      with m "1.prems" have "str_nat (m div 10) = str_nat (n div 10)"
        and "digit (m mod 10) = digit (n mod 10)"
        by (simp_all add: str_nat.simps [of m] str_nat.simps [of n])
      with "1.IH" [OF m] have "m div 10 = n div 10" and "m mod 10 = n mod 10"
        by (simp_all add: digit_inj)
      then show ?thesis
        by (metis div_mult_mod_eq)
    qed
  qed
qed

lemma distinct_synthetic: "distinct (map (\<lambda>i. ''x'' @ str_nat i) [0..<n])"
  by (auto simp: distinct_map inj_on_def dest: str_nat_inj)

text \<open>
  Claim C5. For a square matrix \<open>M\<close> of dimension \<open>N\<close> and a list \<open>L\<close> of \<open>N\<close> labels,
  \<open>make_graph\<close> returns a graph whose declared nodes are the entries of \<open>L\<close>, in the order
  of \<open>L\<close>, so \<open>N\<close> of them. Without labels the declared nodes are \<open>x0\<close>, \<open>x1\<close>, ...,
  \<open>x{N-1}\<close> in this order, \<open>N\<close> different names.
\<close>

theorem make_graph_nodes:
  assumes "square M" and "length L = length M"
  shows "(\<exists>d. make_graph str_f M (Some L) = Inr d \<and> nodes d = L \<and>
              length (nodes d) = length M) \<and>
         (\<exists>d. make_graph str_f M None = Inr d \<and>
              nodes d = map (\<lambda>i. ''x'' @ str_nat i) [0..<length M] \<and>
              length (nodes d) = length M \<and> distinct (nodes d))"
proof
  show "\<exists>d. make_graph str_f M (Some L) = Inr d \<and> nodes d = L \<and> length (nodes d) = length M"
    using assms
    by (simp add: make_graph_square names_of_Some nodes_def nodes_of_append nodes_of_Nodes
        nodes_of_Edges)
  have n: "names_of M None = map (\<lambda>i. ''x'' @ str_nat i) [0..<length M]"
    by (simp add: names_of_def)
  from make_graph_square [OF assms(1) length_names_of_None, of str_f]
  have "\<exists>d. make_graph str_f M None = Inr d \<and> nodes d = names_of M None"
    by (simp add: nodes_def nodes_of_append nodes_of_Nodes nodes_of_Edges)
  then show "\<exists>d. make_graph str_f M None = Inr d \<and>
              nodes d = map (\<lambda>i. ''x'' @ str_nat i) [0..<length M] \<and>
              length (nodes d) = length M \<and> distinct (nodes d)"
    unfolding n using distinct_synthetic [of "length M"] by auto
qed

theorem make_graph_nodes_witness:
  "square [[0, 0.5], [0.6, 0]] \<and> length [''A'', ''B''] = length [[0, 0.5], [0.6, 0::real]] \<and>
   (\<exists>d. make_graph str_tenths [[0, 0.5], [0.6, 0]] (Some [''A'', ''B'']) = Inr d \<and>
        nodes d = [''A'', ''B'']) \<and>
   (\<exists>d. make_graph str_tenths [[0, 0.5], [0.6, 0]] None = Inr d \<and>
        nodes d = [''x0'', ''x1''])"
proof -
  have len: "length [''A'', ''B''] = length [[0, 0.5], [0.6, 0::real]]"
    by simp
  from make_graph_nodes [OF square_example len, of str_tenths] square_example show ?thesis
    by (auto simp: str_nat.simps digit_def)
qed

text \<open>
  Claim C10. For a square matrix \<open>M\<close> of dimension \<open>N > 0\<close>, \<open>make_graph\<close> with the
  empty list as labels does what it does without labels: it returns a graph, and the
  declared nodes are the synthetic names \<open>x0\<close>, ..., \<open>x{N-1}\<close>.
\<close>

theorem make_graph_empty_labels:
  assumes "square M" and "0 < length M"
  shows "make_graph str_f M (Some []) = make_graph str_f M None \<and>
         (\<exists>d. make_graph str_f M (Some []) = Inr d \<and>
              nodes d = map (\<lambda>i. ''x'' @ str_nat i) [0..<length M])"
proof -
  have n: "names_of M (Some []) = map (\<lambda>i. ''x'' @ str_nat i) [0..<length M]"
    by (simp add: names_of_def)
  have eq: "make_graph str_f M (Some []) = make_graph str_f M None"
    by (simp add: make_graph_def names_of_def)
  have "length (names_of M (Some [])) = length M"
    by (simp add: n)
  from make_graph_square [OF assms(1) this, of str_f]
  have "\<exists>d. make_graph str_f M (Some []) = Inr d \<and> nodes d = names_of M (Some [])"
    by (simp add: nodes_def nodes_of_append nodes_of_Nodes nodes_of_Edges)
  with eq n show ?thesis
    by simp
qed

theorem make_graph_empty_labels_witness:
  "square [[0, 0.5], [0.6, 0]] \<and> 0 < length [[0, 0.5], [0.6, 0::real]] \<and>
   (\<exists>d. make_graph str_tenths [[0, 0.5], [0.6, 0]] (Some []) = Inr d \<and>
        nodes d = [''x0'', ''x1''])"
proof -
  have pos: "0 < length [[0, 0.5], [0.6, 0::real]]"
    by simp
  from make_graph_empty_labels [OF square_example pos, of str_tenths]
  have "\<exists>d. make_graph str_tenths [[0, 0.5], [0.6, 0]] (Some []) = Inr d \<and>
            nodes d = map (\<lambda>i. ''x'' @ str_nat i) [0..<length [[0, 0.5], [0.6, 0::real]]]"
    by (rule conjunct2)
  then have "\<exists>d. make_graph str_tenths [[0, 0.5], [0.6, 0]] (Some []) = Inr d \<and>
        nodes d = [''x0'', ''x1'']"
    by (simp add: str_nat.simps digit_def)
  with square_example pos show ?thesis
    by (intro conjI)
qed

subsection \<open>Failure\<close>

text \<open>
  Claim C2, as the specification states it, fails: \<open>make_graph\<close> compares neither the
  number of labels with the dimension of the matrix nor the two dimensions of the matrix.
  With two labels for a matrix of dimension one it returns a graph of two nodes, and for
  a matrix of one row and two columns it returns a graph of one node.
\<close>

theorem make_graph_no_dimension_check:
  "make_graph str_tenths [[0]] (Some [''A'', ''B'']) =
     Inr \<lparr>engine = ''dot'', body = [Node ''A'', Node ''B'']\<rparr> \<and>
   length [''A'', ''B''] \<noteq> length [[0::real]] \<and>
   make_graph str_tenths [[0, 0]] None = Inr \<lparr>engine = ''dot'', body = [Node ''x0'']\<rparr> \<and>
   \<not> square [[0, 0]]"
  by (simp add: make_graph_cases cells_def true_cells_def gt_def np_abs_def names_of_def
      square_def str_nat.simps digit_def)

text \<open>
  Claim C2, amended. \<open>make_graph\<close> fails only with the \<open>IndexError\<close> of \<open>names[from_]\<close>
  or \<open>names[to]\<close>, and it does so exactly when some cell with \<open>|M[i][j]| > 0.01\<close> has a
  row index or a column index that is not below the number of names (the labels when
  they are given and not empty, one synthetic name for each row otherwise). In every
  other case it returns a graph whose declared nodes are the names.
\<close>

theorem make_graph_fails_iff:
  "(make_graph str_f M labels = Inl IndexError) =
     (\<exists>i j. i < length M \<and> j < length (M ! i) \<and> 0.01 < \<bar>M ! i ! j\<bar> \<and>
            (length (names_of M labels) \<le> i \<or> length (names_of M labels) \<le> j)) \<and>
   (make_graph str_f M labels \<noteq> Inl IndexError) =
     (\<exists>d. make_graph str_f M labels = Inr d \<and> nodes d = names_of M labels)"
proof -
  have "(\<forall>c \<in> set (cells M).
           snd c < length (names_of M labels) \<and> fst c < length (names_of M labels)) =
        (\<not> (\<exists>i j. i < length M \<and> j < length (M ! i) \<and> 0.01 < \<bar>M ! i ! j\<bar> \<and>
            (length (names_of M labels) \<le> i \<or> length (names_of M labels) \<le> j)))"
    unfolding set_cells by (simp add: case_prod_unfold Ball_def not_le [symmetric]) blast
  then show ?thesis
    by (auto simp: make_graph_cases nodes_def nodes_of_append nodes_of_Nodes nodes_of_Edges
        simp del: not_less not_le)
qed

theorem make_graph_fails_iff_witness:
  "make_graph str_tenths [[0, 0.5], [0.6, 0]] (Some [''A'']) = Inl IndexError \<and>
   (0::nat) < length [[0, 0.5], [0.6, 0::real]] \<and>
   (1::nat) < length ([[0, 0.5], [0.6, 0::real]] ! 0) \<and>
   0.01 < \<bar>[[0, 0.5], [0.6, 0::real]] ! 0 ! 1\<bar> \<and>
   length (names_of [[0, 0.5], [0.6, 0]] (Some [''A''])) \<le> 1"
proof -
  have "\<exists>i j. i < length [[0, 0.5], [0.6, 0::real]] \<and>
              j < length ([[0, 0.5], [0.6, 0::real]] ! i) \<and>
              0.01 < \<bar>[[0, 0.5], [0.6, 0::real]] ! i ! j\<bar> \<and>
              (length (names_of [[0, 0.5], [0.6, 0]] (Some [''A''])) \<le> i \<or>
               length (names_of [[0, 0.5], [0.6, 0]] (Some [''A''])) \<le> j)"
    by (rule exI [of _ 0], rule exI [of _ 1]) (simp add: names_of_def)
  with make_graph_fails_iff [of str_tenths "[[0, 0.5], [0.6, 0]]" "Some [''A'']"]
  have "make_graph str_tenths [[0, 0.5], [0.6, 0]] (Some [''A'']) = Inl IndexError"
    by blast
  then show ?thesis
    by (simp add: names_of_def)
qed

section \<open>\<open>make_graph\<close> and the objects it is given\<close>

lemma node_st_fresh:
  "node_st (length h) name (h @ [DigraphObj g]) = h @ [DigraphObj (node g name)]"
  by (simp add: node_st_def lookup_def)

lemma edge_st_fresh:
  "edge_st (length h) a b l (h @ [DigraphObj g]) = h @ [DigraphObj (edge g a b l)]"
  by (simp add: edge_st_def lookup_def)

lemma foldl_node_st_fresh:
  "foldl (\<lambda>h name. node_st (length h0) name h) (h0 @ [DigraphObj g]) ns =
   h0 @ [DigraphObj (foldl node g ns)]"
  by (induction ns arbitrary: g) (simp_all add: node_st_fresh)

lemma add_edges_st_fresh:
  "\<exists>g'. add_edges_st str_f names es (length h0) (h0 @ [DigraphObj g]) =
          (case add_edges str_f names es g of Inl e \<Rightarrow> Inl e | Inr _ \<Rightarrow> Inr (length h0),
           h0 @ [DigraphObj g']) \<and>
        (\<forall>g''. add_edges str_f names es g = Inr g'' \<longrightarrow> g' = g'')"
  by (induction str_f names es g rule: add_edges.induct) (auto simp: edge_st_fresh)

text \<open>
  Claim C9. Whatever the labels are, a call of \<open>make_graph\<close> on a reference to the
  matrix \<open>M\<close> leaves the matrix as it was, and with it every object that existed before
  the call: the store after the call is the store before it, followed by new objects.
  When the labels are \<open>None\<close> or a list, the call fails as \<open>make_graph\<close> on the values
  fails, or returns a reference to one new object, the graph that \<open>make_graph\<close> on the
  values returns.
\<close>

theorem make_graph_st_frame:
  assumes "lookup h m = Some (Ndarray M)"
  shows "\<exists>r h'. make_graph_st str_f m labels h = (r, h') \<and>
           lookup h' m = Some (Ndarray M) \<and> take (length h) h' = h \<and>
           (\<forall>L. labels_value h labels = Inr L \<longrightarrow>
              (case make_graph str_f M L of
                 Inl e \<Rightarrow> r = Inl e
               | Inr g \<Rightarrow> r = Inr (length h) \<and> h' = h @ [DigraphObj g]))"
proof (cases "labels_value h labels")
  case (Inl e)
  with assms show ?thesis
    by (simp add: make_graph_st_def)
next
  case (Inr L)
  let ?es = "zip (fst (np_where (gt (np_abs M) 0.01)))
               (zip (snd (np_where (gt (np_abs M) 0.01))) (mask_index M (gt (np_abs M) 0.01)))"
  let ?g = "foldl node (Digraph ''dot'') (names_of M L)"
  obtain g' where
    g': "add_edges_st str_f (names_of M L) ?es (length h) (h @ [DigraphObj ?g]) =
          (case add_edges str_f (names_of M L) ?es ?g of
             Inl e \<Rightarrow> Inl e | Inr _ \<Rightarrow> Inr (length h),
           h @ [DigraphObj g'])"
    and eq: "\<forall>g''. add_edges str_f (names_of M L) ?es ?g = Inr g'' \<longrightarrow> g' = g''"
    using add_edges_st_fresh [of str_f "names_of M L" ?es h ?g] by blast
  have m: "make_graph str_f M L = add_edges str_f (names_of M L) ?es ?g"
    by (simp add: make_graph_def Let_def)
  have st: "make_graph_st str_f m labels h =
        add_edges_st str_f (names_of M L) ?es (length h) (h @ [DigraphObj ?g])"
    using assms Inr by (simp add: make_graph_st_def Let_def alloc_def foldl_node_st_fresh)
  from assms have "m < length h" "h ! m = Ndarray M"
    by (auto simp: lookup_def split: if_splits)
  then have "lookup (h @ [DigraphObj g']) m = Some (Ndarray M)"
    by (simp add: lookup_def nth_append)
  with st g' eq m Inr show ?thesis
    by (auto split: sum.splits)
qed

theorem make_graph_st_frame_witness:
  "lookup [Ndarray [[0, 0.5], [0.6, 0]], PyList [''A'', ''B'']] 0 =
     Some (Ndarray [[0, 0.5], [0.6, 0]]) \<and>
   make_graph_st str_tenths 0 (Some 1) [Ndarray [[0, 0.5], [0.6, 0]], PyList [''A'', ''B'']] =
     (Inr 2, [Ndarray [[0, 0.5], [0.6, 0]], PyList [''A'', ''B''],
              DigraphObj \<lparr>engine = ''dot'',
                body = [Node ''A'', Node ''B'',
                        Edge ''B'' ''A'' ''0.5'', Edge ''A'' ''B'' ''0.6'']\<rparr>])"
proof -
  have l: "lookup [Ndarray [[0, 0.5], [0.6, 0]], PyList [''A'', ''B'']] 0 =
      Some (Ndarray [[0, 0.5], [0.6, 0]])"
    by (simp add: lookup_def)
  have v: "labels_value [Ndarray [[0, 0.5], [0.6, 0]], PyList [''A'', ''B'']] (Some 1) =
      Inr (Some [''A'', ''B''])"
    by (simp add: labels_value_def lookup_def)
  have g: "make_graph str_tenths [[0, 0.5], [0.6, 0]] (Some [''A'', ''B'']) =
       Inr \<lparr>engine = ''dot'',
            body = [Node ''A'', Node ''B'',
                    Edge ''B'' ''A'' ''0.5'', Edge ''A'' ''B'' ''0.6'']\<rparr>"
    unfolding make_graph_cases cells_example
    by (simp add: names_of_def str_tenths_def str_nat.simps digit_def)
  from make_graph_st_frame [OF l, of str_tenths "Some 1"] v g l show ?thesis
    by auto
qed

section \<open>Properties of \<open>str_to_dot\<close>\<close>

subsection \<open>The subscripts\<close>

lemma index_last: "index g (- 1) = (if g = [] then Inl IndexError else Inr (last g))"
  by (cases g rule: rev_cases) (simp_all add: index_def nat_add_distrib)

lemma slice_to: "slice g None (Some 9) = take 9 g"
  by (simp add: slice_def clip_def min_def)

lemma slice_mid: "slice g (Some 10) (Some (- 2)) = drop 10 (take (length g - 2) g)"
proof -
  have "nat (int (length g) - 2) = length g - 2"
    by simp
  moreover have "drop (min 10 (length g)) xs = drop 10 xs"
    if "length xs \<le> length g" for xs :: "'a list"
    using that by (simp add: min_def)
  ultimately show ?thesis
    by (simp add: slice_def clip_def)
qed

lemma str_to_dot_eq:
  "str_to_dot s =
     (if normalise s = [] then Inl IndexError
      else Inr (take 9 (normalise s) @
                drop 10 (take (length (normalise s) - 2) (normalise s)) @
                [last (normalise s)]))"
  by (simp add: str_to_dot_def Let_def index_last slice_to slice_mid)

subsection \<open>\<open>strip\<close> and the two replacements\<close>

lemma strip_Nil_iff: "strip s = [] \<longleftrightarrow> (\<forall>c \<in> set s. isspace c)"
proof
  assume "strip s = []"
  then have a: "\<forall>c \<in> set (dropWhile isspace s). isspace c"
    by (simp add: strip_def)
  show "\<forall>c \<in> set s. isspace c"
  proof (cases "dropWhile isspace s")
    case Nil
    then show ?thesis
      by simp
  next
    case (Cons x xs)
    then have "\<not> isspace x"
      using hd_dropWhile [of isspace s] by simp
    with a Cons show ?thesis
      by simp
  qed
next
  assume "\<forall>c \<in> set s. isspace c"
  then show "strip s = []"
    by (auto simp: strip_def dest: set_dropWhileD)
qed

lemma rev_dropWhile_rev_hd:
  "t \<noteq> [] \<Longrightarrow> \<not> P (hd t) \<Longrightarrow>
   rev (dropWhile P (rev t)) = hd t # rev (dropWhile P (rev (tl t)))"
  by (cases t) (auto simp: dropWhile_append dropWhile_eq_Nil_conv)

lemma strip_ends:
  assumes "strip s \<noteq> []"
  shows "\<not> isspace (hd (strip s)) \<and> \<not> isspace (last (strip s))"
proof -
  let ?t = "dropWhile isspace s"
  from assms have t: "?t \<noteq> []"
    by (auto simp: strip_def dest: set_dropWhileD)
  from assms have r: "dropWhile isspace (rev ?t) \<noteq> []"
    by (simp add: strip_def)
  have "last (strip s) = hd (dropWhile isspace (rev ?t))"
    using r by (simp add: strip_def last_rev)
  with r have l: "\<not> isspace (last (strip s))"
    using hd_dropWhile [of isspace "rev ?t"] by simp
  have h: "\<not> isspace (hd ?t)"
    using t hd_dropWhile [of isspace s] by simp
  from rev_dropWhile_rev_hd [of ?t isspace, OF t h] have "hd (strip s) = hd ?t"
    by (auto simp: strip_def)
  with h l show ?thesis
    by simp
qed

lemma strip_decomp:
  "\<exists>a b. s = a @ strip s @ b \<and> (\<forall>c \<in> set a. isspace c) \<and> (\<forall>c \<in> set b. isspace c)"
proof -
  let ?t = "dropWhile isspace s"
  let ?a = "takeWhile isspace s"
  let ?b = "rev (takeWhile isspace (rev ?t))"
  have "strip s @ ?b = rev (takeWhile isspace (rev ?t) @ dropWhile isspace (rev ?t))"
    by (simp only: strip_def rev_append)
  also have "\<dots> = ?t"
    by simp
  finally have "?a @ strip s @ ?b = s"
    by simp
  then have "s = ?a @ strip s @ ?b"
    by (rule sym)
  moreover have "\<forall>c \<in> set ?a. isspace c"
    by (auto dest: set_takeWhileD)
  moreover have "\<forall>c \<in> set ?b. isspace c"
    by (auto dest: set_takeWhileD)
  ultimately show ?thesis
    by blast
qed

lemma normalise_filter_map:
  "normalise s =
     filter (\<lambda>c. c \<noteq> CHR 0x09) (map (\<lambda>c. if c = CHR 0x0A then CHR '';'' else c) (strip s))"
proof -
  have a: "replace (CHR 0x0A) '';'' xs = map (\<lambda>c. if c = CHR 0x0A then CHR '';'' else c) xs"
    for xs
    by (induction xs) (simp_all add: replace_def)
  have b: "replace (CHR 0x09) [] xs = filter (\<lambda>c. c \<noteq> CHR 0x09) xs" for xs
    by (induction xs) (simp_all add: replace_def)
  show ?thesis
    by (simp add: normalise_def a b)
qed

lemma normalise_Nil_iff: "normalise s = [] \<longleftrightarrow> strip s = []"
proof
  assume n: "normalise s = []"
  show "strip s = []"
  proof (rule ccontr)
    assume ne: "strip s \<noteq> []"
    then have "\<not> isspace (hd (strip s))"
      by (simp add: strip_ends)
    then have "hd (strip s) \<noteq> CHR 0x09" "hd (strip s) \<noteq> CHR 0x0A"
      by (auto simp: isspace_def)
    with ne have "normalise s \<noteq> []"
      by (cases "strip s") (simp_all add: normalise_filter_map)
    with n show False
      by simp
  qed
next
  assume "strip s = []"
  then show "normalise s = []"
    by (simp add: normalise_filter_map)
qed

subsection \<open>Failure\<close>

text \<open>
  Claim C3, as the specification states it, fails: whether \<open>str_to_dot\<close> fails does not
  depend on the length of its input. Of two inputs of one character, the letter \<open>a\<close>
  is answered with \<open>aa\<close> and the space raises; an input of two letters, shorter than
  any of the offsets 9, 10 and 2 of the slices, is answered too.
\<close>

theorem str_to_dot_short_input:
  "length ''a'' = length '' '' \<and> str_to_dot ''a'' = Inr ''aa'' \<and>
   str_to_dot '' '' = Inl IndexError \<and> str_to_dot ''ab'' = Inr ''abb''"
  by (simp add: isspace_def str_to_dot_eq normalise_filter_map strip_def)

text \<open>
  Claim C3, amended. \<open>str_to_dot\<close> fails, with the \<open>IndexError\<close> of \<open>graph[-1]\<close>,
  exactly when its input is empty or has whitespace only; on every other input, however
  short, it returns a string.
\<close>

theorem str_to_dot_fails_iff:
  "(str_to_dot s = Inl IndexError) = (\<forall>c \<in> set s. isspace c) \<and>
   (\<exists>r. str_to_dot s = Inr r) = (\<exists>c \<in> set s. \<not> isspace c)"
  by (auto simp: str_to_dot_eq normalise_Nil_iff strip_Nil_iff)

theorem str_to_dot_fails_iff_witness:
  "str_to_dot '' \<newline> '' = Inl IndexError \<and> (\<exists>r. str_to_dot ''digraph {\<newline>}'' = Inr r)"
  using str_to_dot_fails_iff [of "'' \<newline> ''"] str_to_dot_fails_iff [of "''digraph {\<newline>}''"]
  by (simp add: isspace_def)

subsection \<open>The four steps\<close>

text \<open>
  Claim C6, as the specification states it, fails in its last step: \<open>str_to_dot\<close> does
  not strip a prefix and a suffix. On the source of a graph with the one node \<open>A\<close> the
  first three steps give \<open>digraph {;A;}\<close> and the result is \<open>digraph {A}\<close>, with the
  header that a stripped prefix would have taken away; the result is no contiguous part
  of the text it was cut from.
\<close>

theorem str_to_dot_keeps_header:
  "str_to_dot (''digraph {\<newline>'' @ [CHR 0x09] @ ''A\<newline>}\<newline>'') = Inr ''digraph {A}'' \<and>
   normalise (''digraph {\<newline>'' @ [CHR 0x09] @ ''A\<newline>}\<newline>'') = ''digraph {;A;}'' \<and>
   \<not> sublist ''digraph {A}'' ''digraph {;A;}''"
  by (simp add: isspace_def str_to_dot_eq normalise_filter_map strip_def sublist_Cons_right
      prefix_Cons)

text \<open>
  Claim C6, amended. \<open>str_to_dot\<close> first removes the whitespace at both ends of its
  input, then replaces every newline by \<open>;\<close>, then removes every tab. When the text so
  normalised has twelve characters or more, the result is this text without its tenth
  character and without its last character but one: the nine characters of the header,
  the inner statement list and the last character are kept.
\<close>

theorem str_to_dot_steps:
  "(\<exists>a b. s = a @ strip s @ b \<and> (\<forall>c \<in> set a. isspace c) \<and> (\<forall>c \<in> set b. isspace c)) \<and>
   (strip s \<noteq> [] \<longrightarrow> \<not> isspace (hd (strip s)) \<and> \<not> isspace (last (strip s))) \<and>
   normalise s =
     filter (\<lambda>c. c \<noteq> CHR 0x09) (map (\<lambda>c. if c = CHR 0x0A then CHR '';'' else c) (strip s)) \<and>
   (\<forall>h c1 inner c2 c3. normalise s = h @ c1 # inner @ [c2, c3] \<and> length h = 9 \<longrightarrow>
      str_to_dot s = Inr (h @ inner @ [c3]))"
proof (intro conjI allI impI)
  show "\<exists>a b. s = a @ strip s @ b \<and> (\<forall>c \<in> set a. isspace c) \<and> (\<forall>c \<in> set b. isspace c)"
    by (rule strip_decomp)
  show "normalise s =
     filter (\<lambda>c. c \<noteq> CHR 0x09) (map (\<lambda>c. if c = CHR 0x0A then CHR '';'' else c) (strip s))"
    by (rule normalise_filter_map)
next
  assume "strip s \<noteq> []"
  then show "\<not> isspace (hd (strip s))" "\<not> isspace (last (strip s))"
    by (simp_all add: strip_ends)
next
  fix h c1 inner c2 c3
  assume "normalise s = h @ c1 # inner @ [c2, c3] \<and> length h = 9"
  then show "str_to_dot s = Inr (h @ inner @ [c3])"
    by (simp add: str_to_dot_eq)
qed

theorem str_to_dot_steps_witness:
  "normalise (''digraph {\<newline>'' @ [CHR 0x09] @ ''A\<newline>'' @ [CHR 0x09] @ ''B\<newline>'' @
              [CHR 0x09] @ ''A -> B [label=0.6]\<newline>}\<newline>'') =
     ''digraph {'' @ CHR '';'' # ''A;B;A -> B [label=0.6]'' @ [CHR '';'', CHR ''}''] \<and>
   length ''digraph {'' = 9 \<and>
   str_to_dot (''digraph {\<newline>'' @ [CHR 0x09] @ ''A\<newline>'' @ [CHR 0x09] @ ''B\<newline>'' @
               [CHR 0x09] @ ''A -> B [label=0.6]\<newline>}\<newline>'') =
     Inr ''digraph {A;B;A -> B [label=0.6]}''"
proof -
  let ?s = "''digraph {\<newline>'' @ [CHR 0x09] @ ''A\<newline>'' @ [CHR 0x09] @ ''B\<newline>'' @
            [CHR 0x09] @ ''A -> B [label=0.6]\<newline>}\<newline>''"
  have n: "normalise ?s =
      ''digraph {'' @ CHR '';'' # ''A;B;A -> B [label=0.6]'' @ [CHR '';'', CHR ''}'']"
    by (simp add: isspace_def normalise_filter_map strip_def)
  have l: "length ''digraph {'' = 9"
    by simp
  from str_to_dot_steps [of ?s, THEN conjunct2, THEN conjunct2, THEN conjunct2, rule_format,
      OF conjI, OF n l]
  have "str_to_dot ?s = Inr (''digraph {'' @ ''A;B;A -> B [label=0.6]'' @ [CHR ''}''])" .
  then have "str_to_dot ?s = Inr ''digraph {A;B;A -> B [label=0.6]}''"
    by simp
  with n l show ?thesis
    by (intro conjI)
qed

section \<open>The empty matrix\<close>

text \<open>
  Claim C8. For the matrix without rows, and no labels or the empty list of labels,
  \<open>make_graph\<close> returns a graph without nodes and without edges. The \<open>graphviz\<close>
  package is not part of the notebook: \<open>source\<close> stands for the text it renders a
  \<open>Digraph\<close> to, and the assumption is that a \<open>Digraph\<close> without statements is rendered
  as the header line and the line of the closing brace, with or without a final
  newline. \<open>str_to_dot\<close> turns this text into \<open>digraph {}\<close>, a block without
  statements.
\<close>

theorem make_graph_empty_matrix:
  assumes "source (Digraph ''dot'') = ''digraph {\<newline>}\<newline>'' \<or>
           source (Digraph ''dot'') = ''digraph {\<newline>}''"
  shows "(\<exists>d. make_graph str_f [] None = Inr d \<and> nodes d = [] \<and> edges d = [] \<and>
              str_to_dot (source d) = Inr ''digraph {}'') \<and>
         (\<exists>d. make_graph str_f [] (Some []) = Inr d \<and> nodes d = [] \<and> edges d = [] \<and>
              str_to_dot (source d) = Inr ''digraph {}'')"
proof -
  have g: "make_graph str_f [] labels = Inr (Digraph ''dot'')"
    if "labels = None \<or> labels = Some []" for labels
    using that
    by (auto simp: make_graph_cases cells_def true_cells_def gt_def np_abs_def names_of_def
        Digraph_def)
  have s: "str_to_dot (source (Digraph ''dot'')) = Inr ''digraph {}''"
    using assms by (auto simp: isspace_def str_to_dot_eq normalise_filter_map strip_def)
  have n: "nodes (Digraph ''dot'') = []" "edges (Digraph ''dot'') = []"
    by (simp_all add: nodes_def edges_def Digraph_def)
  show ?thesis
    by (simp add: g s n)
qed

theorem make_graph_empty_matrix_witness:
  "(\<lambda>d. ''digraph {\<newline>}\<newline>'') (Digraph ''dot'') = ''digraph {\<newline>}\<newline>'' \<and>
   (\<exists>d. make_graph str_tenths [] None = Inr d \<and> nodes d = [] \<and> edges d = [] \<and>
        str_to_dot ((\<lambda>d. ''digraph {\<newline>}\<newline>'') d) = Inr ''digraph {}'')"
  using make_graph_empty_matrix [of "\<lambda>d. ''digraph {\<newline>}\<newline>''" str_tenths]
  by simp

end
